theory Spec2Isabelle
  imports Main "HOL-Library.Monad_Syntax"
begin

section \<open>The record store (db.js)\<close>

text \<open>
  The store is one SQLite table \<open>users\<close> with an \<open>INTEGER PRIMARY KEY AUTOINCREMENT\<close>
  column. A row of the table is a record; the table is the list of its rows together
  with the counter SQLite keeps for an AUTOINCREMENT column (\<open>sqlite_sequence\<close>).
  The field \<open>id\<close> is called \<open>u_id\<close> here, since \<open>id\<close> is the identity function of
  HOL; the other columns carry the same prefix.

  \<open>datetime('now')\<close> reads the clock. The clock is an argument \<open>now\<close> of the two
  writing operations; SQLite evaluates every \<open>'now'\<close> of one statement to the same value.
\<close>

type_synonym timestamp = string

record user_row =
  u_id :: int
  u_name :: string
  u_state :: string
  u_options :: "string option"
  u_github_username :: string
  u_created_at :: timestamp
  u_updated_at :: timestamp

record store =
  rows :: "user_row list"
  seq :: int

text \<open>
  The errors \<open>updateRecord\<close> throws, by their messages:
  \<open>Record with ID ${id} not found\<close>,
  \<open>Unauthorized: Record belongs to ${existing.github_username}, not ${githubUsername}\<close>,
  \<open>Update failed: Record not found or unauthorized\<close>; and the one fault the
  \<open>INSERT\<close> has on this table with arguments of the documented types: SQLITE_FULL, when
  the largest rowid has been used.
\<close>

datatype store_error =
    RecordNotFound int
  | Unauthorized string string
  | UpdateFailed
  | StoreFull

text \<open>\<open>options || null\<close> for an argument that is a string, \<open>null\<close> or \<open>undefined\<close>.\<close>

definition or_null :: "string option \<Rightarrow> string option" where
  "or_null opts = (case opts of None \<Rightarrow> None | Some s \<Rightarrow> if s = [] then None else Some s)"

text \<open>\<open>SELECT * FROM users WHERE id = ?\<close> with \<open>stmt.get(id) || null\<close>: the first row found.\<close>

definition getRecord :: "store \<Rightarrow> int \<Rightarrow> user_row option" where
  "getRecord st i = find (\<lambda>r. u_id r = i) (rows st)"

text \<open>
  The rowid an AUTOINCREMENT column gives a new row: one more than the largest rowid
  the table has ever held.
\<close>

definition max_rowid :: "store \<Rightarrow> int" where
  "max_rowid st = fold max (map u_id (rows st)) (seq st)"

definition sql_insert ::
  "store \<Rightarrow> string \<Rightarrow> string \<Rightarrow> string option \<Rightarrow> string \<Rightarrow> timestamp \<Rightarrow> store_error + int \<times> store"
where
  "sql_insert st nm stt opts user now =
     (if max_rowid st \<ge> 9223372036854775807 then Inl StoreFull
      else let i = max_rowid st + 1;
               r = \<lparr>u_id = i, u_name = nm, u_state = stt, u_options = opts,
                    u_github_username = user, u_created_at = now, u_updated_at = now\<rparr>
           in Inr (i, st\<lparr>rows := rows st @ [r], seq := i\<rparr>))"

text \<open>
  \<open>result.lastInsertRowid\<close> is a JavaScript number (the connection is opened without
  safe integers): the double nearest to the rowid, the even one of two that are equally
  near. The doubles around an integer \<open>m\<close> with \<open>2^52 * u \<le> m < 2^53 * u\<close>, for a power
  \<open>u\<close> of two, are the multiples of \<open>u\<close>; twelve values of \<open>u\<close> cover the integers of
  64 bits. An integer below \<open>2^53\<close> is its own double.
\<close>

fun ulp_search :: "nat \<Rightarrow> int \<Rightarrow> int \<Rightarrow> int" where
  "ulp_search 0 u m = u"
| "ulp_search (Suc k) u m =
     (if m < 9007199254740992 * u then u else ulp_search k (2 * u) m)"

definition ulp :: "int \<Rightarrow> int" where
  "ulp m = ulp_search 11 1 m"

definition js_number :: "int \<Rightarrow> int" where
  "js_number i =
     (let m = \<bar>i\<bar>; u = ulp m; q = m div u; r = m mod u;
          q' = (if 2 * r > u \<or> (2 * r = u \<and> odd q) then q + 1 else q)
      in sgn i * (q' * u))"

definition createRecord ::
  "store \<Rightarrow> string \<Rightarrow> string \<Rightarrow> string option \<Rightarrow> string \<Rightarrow> timestamp
     \<Rightarrow> (store_error + user_row option) \<times> store"
where
  "createRecord st nm stt opts user now =
     (case sql_insert st nm stt (or_null opts) user now of
        Inl e \<Rightarrow> (Inl e, st)
      | Inr (rowid, st') \<Rightarrow>
          let lastInsertRowid = js_number rowid
          in (Inr (getRecord st' lastInsertRowid), st'))"

text \<open>
  \<open>UPDATE users SET name = ?, state = ?, options = ?, updated_at = datetime('now')
  WHERE id = ? AND github_username = ?\<close>: every row the condition holds of is rewritten,
  and \<open>changes\<close> is their number.
\<close>

definition update_matches :: "int \<Rightarrow> string \<Rightarrow> user_row \<Rightarrow> bool" where
  "update_matches i user r \<longleftrightarrow> u_id r = i \<and> u_github_username r = user"

definition sql_update ::
  "store \<Rightarrow> string \<Rightarrow> string \<Rightarrow> string option \<Rightarrow> int \<Rightarrow> string \<Rightarrow> timestamp \<Rightarrow> nat \<times> store"
where
  "sql_update st nm stt opts i user now =
     (length (filter (update_matches i user) (rows st)),
      st\<lparr>rows := map (\<lambda>r. if update_matches i user r
                             then r\<lparr>u_name := nm, u_state := stt, u_options := opts,
                                    u_updated_at := now\<rparr>
                             else r) (rows st)\<rparr>)"

definition updateRecord ::
  "store \<Rightarrow> int \<Rightarrow> string \<Rightarrow> string \<Rightarrow> string option \<Rightarrow> string \<Rightarrow> timestamp
     \<Rightarrow> (store_error + user_row option) \<times> store"
where
  "updateRecord st i nm stt opts user now =
     (case getRecord st i of
        None \<Rightarrow> (Inl (RecordNotFound i), st)
      | Some existing \<Rightarrow>
          if u_github_username existing \<noteq> user
          then (Inl (Unauthorized (u_github_username existing) user), st)
          else (case sql_update st nm stt (or_null opts) i user now of
                  (changes, st') \<Rightarrow>
                    if changes = 0 then (Inl UpdateFailed, st')
                    else (Inr (getRecord st' i), st')))"

text \<open>Two stores to run the operations on.\<close>

definition empty_store :: store where
  "empty_store = \<lparr>rows = [], seq = 0\<rparr>"

definition alice_row :: user_row where
  "alice_row = \<lparr>u_id = 1, u_name = ''Alice'', u_state = ''CA'', u_options = Some ''opt1'',
                 u_github_username = ''alice'', u_created_at = ''2024-01-01 00:00:00'',
                 u_updated_at = ''2024-01-01 00:00:00''\<rparr>"

definition alice_store :: store where
  "alice_store = \<lparr>rows = [alice_row], seq = 1\<rparr>"

section \<open>Strings (issue-parser.js)\<close>

text \<open>
  A JavaScript string is a sequence of UTF-16 code units. The model takes the strings
  whose code units are below 256, one \<open>char\<close> each; on these the character classes and
  case mappings of JavaScript are the ones defined here.
\<close>

text \<open>
  White space and line terminators of JavaScript (\<open>\s\<close> of a regular expression, what
  \<open>trim\<close> removes and what \<open>parseInt\<close> skips): TAB, LF, VT, FF, CR, SP and NBSP.
\<close>

definition is_space :: "char \<Rightarrow> bool" where
  "is_space c \<longleftrightarrow> c \<in> set [CHR 0x09, CHR 0x0A, CHR 0x0B, CHR 0x0C, CHR 0x0D, CHR 0x20, CHR 0xA0]"

text \<open>\<open>\w\<close>: a letter of ASCII, a digit or the underscore.\<close>

definition is_word :: "char \<Rightarrow> bool" where
  "is_word c \<longleftrightarrow> (let n = (of_char c :: nat) in
     (48 \<le> n \<and> n \<le> 57) \<or> (65 \<le> n \<and> n \<le> 90) \<or> n = 95 \<or> (97 \<le> n \<and> n \<le> 122))"

definition is_digit :: "char \<Rightarrow> bool" where
  "is_digit c \<longleftrightarrow> (let n = (of_char c :: nat) in 48 \<le> n \<and> n \<le> 57)"

text \<open>The dot of a regular expression: any character but a line terminator (LF, CR).\<close>

definition is_dot :: "char \<Rightarrow> bool" where
  "is_dot c \<longleftrightarrow> c \<noteq> CHR 0x0A \<and> c \<noteq> CHR 0x0D"

definition not_newline :: "char \<Rightarrow> bool" where
  "not_newline c \<longleftrightarrow> c \<noteq> CHR 0x0A"

definition any_char :: "char \<Rightarrow> bool" where
  "any_char c \<longleftrightarrow> True"

text \<open>
  \<open>toLowerCase\<close> on one character: A to Z, and the capital letters of Latin-1
  (U+00C0 to U+00DE but the multiplication sign U+00D7), move up by 32.
\<close>

definition to_lower :: "char \<Rightarrow> char" where
  "to_lower c = (let n = (of_char c :: nat) in
     if (65 \<le> n \<and> n \<le> 90) \<or> (192 \<le> n \<and> n \<le> 222 \<and> n \<noteq> 215)
     then char_of (n + 32) else c)"

definition toLowerCase :: "string \<Rightarrow> string" where
  "toLowerCase s = map to_lower s"

definition trim :: "string \<Rightarrow> string" where
  "trim s = rev (dropWhile is_space (rev (dropWhile is_space s)))"

definition startsWith :: "string \<Rightarrow> string \<Rightarrow> bool" where
  "startsWith s p \<longleftrightarrow> take (length p) s = p"

definition endsWith :: "string \<Rightarrow> string \<Rightarrow> bool" where
  "endsWith s p \<longleftrightarrow> length p \<le> length s \<and> drop (length s - length p) s = p"

fun includes_str :: "string \<Rightarrow> string \<Rightarrow> bool" where
  "includes_str [] p = (p = [])"
| "includes_str (c # cs) p = (startsWith (c # cs) p \<or> includes_str cs p)"

text \<open>\<open>s.split('\n')\<close>: the pieces between line feeds, one piece at least.\<close>

fun split_lines :: "string \<Rightarrow> string list" where
  "split_lines [] = [[]]"
| "split_lines (c # cs) =
     (if c = CHR 0x0A then [] # split_lines cs
      else (case split_lines cs of
              [] \<Rightarrow> [[c]]
            | l # ls \<Rightarrow> (c # l) # ls))"

text \<open>\<open>value.slice(1, -1)\<close> of a string that is not empty.\<close>

definition slice_1_m1 :: "string \<Rightarrow> string" where
  "slice_1_m1 v = butlast (tl v)"

section \<open>Regular expressions as backtracking matchers\<close>

text \<open>
  A piece of a regular expression, run at the head of a string, has the list of its
  matches in the order in which backtracking tries them: each match is what is left of
  the string (with the text a group captured, where there is one). A sequence of pieces
  is the \<open>bind\<close> of lists, and the match \<open>String.prototype.match\<close> reports is the
  first of the list.
\<close>

text \<open>A literal, and a literal under the flag \<open>i\<close>.\<close>

definition lit :: "string \<Rightarrow> string \<Rightarrow> string list" where
  "lit p s = (if startsWith s p then [drop (length p) s] else [])"

definition lit_ci :: "string \<Rightarrow> string \<Rightarrow> string list" where
  "lit_ci p s = (if map to_lower (take (length p) s) = map to_lower p
                 then [drop (length p) s] else [])"

text \<open>A greedy \<open>c*\<close> for a character class: the longest run first.\<close>

fun star :: "(char \<Rightarrow> bool) \<Rightarrow> string \<Rightarrow> (string \<times> string) list" where
  "star P [] = [([], [])]"
| "star P (c # cs) =
     (if P c then map (\<lambda>(m, r). (c # m, r)) (star P cs) else []) @ [([], c # cs)]"

text \<open>A lazy \<open>c*?\<close>: the shortest run first.\<close>

fun star_lazy :: "(char \<Rightarrow> bool) \<Rightarrow> string \<Rightarrow> (string \<times> string) list" where
  "star_lazy P [] = [([], [])]"
| "star_lazy P (c # cs) =
     ([], c # cs) # (if P c then map (\<lambda>(m, r). (c # m, r)) (star_lazy P cs) else [])"

text \<open>A greedy \<open>c+\<close>.\<close>

definition plus :: "(char \<Rightarrow> bool) \<Rightarrow> string \<Rightarrow> (string \<times> string) list" where
  "plus P s = filter (\<lambda>(m, r). m \<noteq> []) (star P s)"

text \<open>A greedy \<open>x?\<close>.\<close>

definition opt :: "(string \<Rightarrow> string list) \<Rightarrow> string \<Rightarrow> string list" where
  "opt x s = x s @ [s]"

text \<open>\<open>$\<close> without the flag \<open>m\<close>: the end of the string.\<close>

definition at_end :: "'a \<Rightarrow> string \<Rightarrow> 'a list" where
  "at_end x s = (if s = [] then [x] else [])"

text \<open>The match reported: the first one, for an anchored expression.\<close>

definition first_match :: "'a list \<Rightarrow> 'a option" where
  "first_match ms = (case ms of [] \<Rightarrow> None | m # _ \<Rightarrow> Some m)"

text \<open>An expression that is not anchored is tried at every position, from the left.\<close>

fun re_search :: "(string \<Rightarrow> 'a list) \<Rightarrow> string \<Rightarrow> 'a option" where
  "re_search x [] = first_match (x [])"
| "re_search x (c # cs) =
     (case x (c # cs) of [] \<Rightarrow> re_search x cs | m # _ \<Rightarrow> Some m)"

section \<open>The parser (issue-parser.js)\<close>

datatype kind = Create | Update

text \<open>
  The numbers \<open>parseInt\<close> returns: \<open>NaN\<close> or an integer. JavaScript rounds an integer
  beyond \<open>2^53\<close> to a double; the model keeps it exact, and no claim depends on more than
  whether the number is \<open>NaN\<close> or zero.
\<close>

datatype jsnum = NaN | Num int

record parsed =
  p_type :: kind
  p_name :: string
  p_state :: string
  p_options :: string
  p_recordId :: "jsnum option"

datatype parse_error =
    EmptyInput
  | MalformedFrontmatter
  | InvalidRecordId string

type_synonym rawmap = "string \<rightharpoonup> string"

text \<open>
  A property of the raw map is a string or \<open>undefined\<close>. A string is truthy when it is
  not empty; \<open>a || b\<close> is \<open>a\<close> when \<open>a\<close> is truthy and \<open>b\<close> otherwise.
\<close>

definition truthy :: "string option \<Rightarrow> bool" where
  "truthy v = (case v of None \<Rightarrow> False | Some s \<Rightarrow> s \<noteq> [])"

definition js_or :: "string option \<Rightarrow> string option \<Rightarrow> string option" where
  "js_or a b = (if truthy a then a else b)"

text \<open>\<open>v || ''\<close>.\<close>

definition or_empty :: "string option \<Rightarrow> string" where
  "or_empty v = (case js_or v (Some []) of None \<Rightarrow> [] | Some s \<Rightarrow> s)"

text \<open>
  \<open>parseInt(s, 10)\<close>: white space is skipped, then a sign is read, then the longest run
  of digits; without a digit the result is \<open>NaN\<close>, and what follows the digits is ignored.
\<close>

definition digit_value :: "char \<Rightarrow> int" where
  "digit_value c = int (of_char c) - 48"

definition digits_value :: "string \<Rightarrow> int" where
  "digits_value ds = foldl (\<lambda>a c. 10 * a + digit_value c) 0 ds"

definition parseInt :: "string \<Rightarrow> jsnum" where
  "parseInt s =
     (let t = dropWhile is_space s;
          neg = startsWith t ''-'';
          u = (if startsWith t ''-'' \<or> startsWith t ''+'' then tl t else t);
          z = takeWhile is_digit u
      in if z = [] then NaN
         else Num ((if neg then - 1 else 1) * digits_value z))"

text \<open>
  \<open>normalizeParsedData\<close>. The chain \<open>data.recordId || data.record_id || data.id || null\<close>
  is a string that is not empty, or \<open>null\<close>; the string is converted, so the
  \<open>recordId\<close> of the record returned is a number or \<open>null\<close>.
\<close>

definition normalizeParsedData :: "rawmap \<Rightarrow> parse_error + parsed" where
  "normalizeParsedData data =
     (let normalized =
            \<lparr>p_type = (if truthy (js_or (data ''recordId'') (js_or (data ''record_id'') (data ''id'')))
                       then Update else Create),
             p_name = or_empty (data ''name''),
             p_state = or_empty (data ''state''),
             p_options = or_empty (data ''options''),
             p_recordId = None\<rparr>;
          recordId = js_or (data ''recordId'') (js_or (data ''record_id'') (js_or (data ''id'') None))
      in case recordId of
           None \<Rightarrow> Inr normalized
         | Some s \<Rightarrow>
             if s = [] then Inr normalized
             else (case parseInt s of
                     NaN \<Rightarrow> Inl (InvalidRecordId s)
                   | Num n \<Rightarrow> Inr (normalized\<lparr>p_recordId := Some (Num n)\<rparr>)))"

text \<open>\<open>/^---\s*\n([\s\S]*?)\n---\s*\n([\s\S]*)$/\<close>, with its two groups.\<close>

definition frontmatter_regex :: "string \<Rightarrow> (string \<times> string) list" where
  "frontmatter_regex s = do {
     r1 \<leftarrow> lit ''---'' s;
     (w1, r2) \<leftarrow> star is_space r1;
     r3 \<leftarrow> lit [CHR 0x0A] r2;
     (g1, r4) \<leftarrow> star_lazy any_char r3;
     r5 \<leftarrow> lit (CHR 0x0A # ''---'') r4;
     (w2, r6) \<leftarrow> star is_space r5;
     r7 \<leftarrow> lit [CHR 0x0A] r6;
     (g2, r8) \<leftarrow> star any_char r7;
     at_end (g1, g2) r8
   }"

text \<open>\<open>/^(\w+):\s*(.+)$/\<close>, with its two groups.\<close>

definition line_regex :: "string \<Rightarrow> (string \<times> string) list" where
  "line_regex s = do {
     (g1, r1) \<leftarrow> plus is_word s;
     r2 \<leftarrow> lit '':'' r1;
     (w, r3) \<leftarrow> star is_space r2;
     (g2, r4) \<leftarrow> plus is_dot r3;
     at_end (g1, g2) r4
   }"

definition strip_quotes :: "string \<Rightarrow> string" where
  "strip_quotes v =
     (if (startsWith v [CHR 0x22] \<and> endsWith v [CHR 0x22])
         \<or> (startsWith v [CHR 0x27] \<and> endsWith v [CHR 0x27])
      then slice_1_m1 v else v)"

text \<open>The loop over the lines of the block; a line that does not match is passed over.\<close>

fun yaml_lines :: "string list \<Rightarrow> rawmap \<Rightarrow> rawmap" where
  "yaml_lines [] data = data"
| "yaml_lines (line # lines) data =
     (case first_match (line_regex line) of
        None \<Rightarrow> yaml_lines lines data
      | Some (g1, g2) \<Rightarrow> yaml_lines lines (data(trim g1 \<mapsto> strip_quotes (trim g2))))"

text \<open>
  \<open>parseYAMLFrontmatter\<close> in its two steps: the raw map of the block (or the error of a
  text that does not match), then \<open>normalizeParsedData\<close>.
\<close>

definition extractYAMLFrontmatter :: "string \<Rightarrow> parse_error + rawmap" where
  "extractYAMLFrontmatter body =
     (case first_match (frontmatter_regex body) of
        None \<Rightarrow> Inl MalformedFrontmatter
      | Some (yamlContent, rest) \<Rightarrow> Inr (yaml_lines (split_lines yamlContent) Map.empty))"

definition parseYAMLFrontmatter :: "string \<Rightarrow> parse_error + parsed" where
  "parseYAMLFrontmatter body =
     (case extractYAMLFrontmatter body of
        Inl e \<Rightarrow> Inl e
      | Inr data \<Rightarrow> normalizeParsedData data)"

text \<open>
  \<open>/###\s*T\s*\n([^\n]+)/i\<close> for a title \<open>T\<close>, with its group; the titles are
  \<open>Name\<close>, \<open>State\<close>, \<open>Options?\<close>, \<open>Record\s*ID\<close> and \<open>ID\<close>.
\<close>

definition heading_regex :: "(string \<Rightarrow> string list) \<Rightarrow> string \<Rightarrow> string list" where
  "heading_regex title s = do {
     r1 \<leftarrow> lit ''###'' s;
     (w1, r2) \<leftarrow> star is_space r1;
     r3 \<leftarrow> title r2;
     (w2, r4) \<leftarrow> star is_space r3;
     r5 \<leftarrow> lit [CHR 0x0A] r4;
     (g1, r6) \<leftarrow> plus not_newline r5;
     [g1]
   }"

definition title_options :: "string \<Rightarrow> string list" where
  "title_options s = do { r1 \<leftarrow> lit_ci ''Option'' s; opt (lit_ci ''s'') r1 }"

definition title_record_id :: "string \<Rightarrow> string list" where
  "title_record_id s = do {
     r1 \<leftarrow> lit_ci ''Record'' s;
     (w, r2) \<leftarrow> star is_space r1;
     lit_ci ''ID'' r2
   }"

definition patterns :: "(string \<times> (string \<Rightarrow> string list)) list" where
  "patterns =
     [(''name'', heading_regex (lit_ci ''Name'')),
      (''state'', heading_regex (lit_ci ''State'')),
      (''options'', heading_regex title_options),
      (''recordId'', heading_regex title_record_id),
      (''record_id'', heading_regex title_record_id),
      (''id'', heading_regex (lit_ci ''ID''))]"

fun markdown_fields :: "(string \<times> (string \<Rightarrow> string list)) list \<Rightarrow> string \<Rightarrow> rawmap \<Rightarrow> rawmap" where
  "markdown_fields [] body data = data"
| "markdown_fields ((key, pattern) # ps) body data =
     (case re_search pattern body of
        None \<Rightarrow> markdown_fields ps body data
      | Some g1 \<Rightarrow> markdown_fields ps body (data(key \<mapsto> trim g1)))"

definition extractMarkdownFormat :: "string \<Rightarrow> rawmap" where
  "extractMarkdownFormat body = markdown_fields patterns body Map.empty"

definition parseMarkdownFormat :: "string \<Rightarrow> parse_error + parsed" where
  "parseMarkdownFormat body = normalizeParsedData (extractMarkdownFormat body)"

text \<open>
  \<open>parseIssueBody\<close>: the body is a string, or absent (\<open>null\<close>, \<open>undefined\<close>, any value
  that is not a string).
\<close>

definition parseIssueBody :: "string option \<Rightarrow> parse_error + parsed" where
  "parseIssueBody body =
     (case body of
        None \<Rightarrow> Inl EmptyInput
      | Some b \<Rightarrow>
          if b = [] then Inl EmptyInput
          else let trimmedBody = trim b
               in if startsWith trimmedBody ''---'' then parseYAMLFrontmatter trimmedBody
                  else parseMarkdownFormat trimmedBody)"

section \<open>The validator (issue-parser.js)\<close>

text \<open>
  The four messages \<open>validateIssueData\<close> pushes:
  \<open>Issue type mismatch: expected ${issueType}, got ${parsedData.type}\<close>,
  \<open>Name is required\<close>, \<open>State is required\<close>, \<open>Record ID is required for updates\<close>.
\<close>

datatype validation_error =
    TypeMismatch kind kind
  | MissingName
  | MissingState
  | MissingRecordId

record validation =
  isValid :: bool
  errors :: "validation_error list"

text \<open>\<open>!recordId\<close> and \<open>isNaN(recordId)\<close> for a number or \<open>null\<close>.\<close>

definition not_num :: "jsnum option \<Rightarrow> bool" where
  "not_num v = (case v of None \<Rightarrow> True | Some NaN \<Rightarrow> True | Some (Num n) \<Rightarrow> n = 0)"

definition isNaN :: "jsnum option \<Rightarrow> bool" where
  "isNaN v = (case v of None \<Rightarrow> False | Some NaN \<Rightarrow> True | Some (Num n) \<Rightarrow> False)"

text \<open>
  The check of the options runs \<open>JSON.parse\<close> and drops both its result and its
  exception: it adds no error and is left out.
\<close>

definition validateIssueData :: "parsed \<Rightarrow> kind \<Rightarrow> validation" where
  "validateIssueData parsedData issueType =
     (let e1 = (if p_type parsedData \<noteq> issueType
                then [TypeMismatch issueType (p_type parsedData)] else []);
          e2 = (if p_name parsedData = [] \<or> trim (p_name parsedData) = []
                then [MissingName] else []);
          e3 = (if p_state parsedData = [] \<or> trim (p_state parsedData) = []
                then [MissingState] else []);
          e4 = (if issueType = Update
                then (if not_num (p_recordId parsedData) \<or> isNaN (p_recordId parsedData)
                      then [MissingRecordId] else [])
                else []);
          errs = e1 @ e2 @ e3 @ e4
      in \<lparr>isValid = (length errs = 0), errors = errs\<rparr>)"

section \<open>The classifier (issue-parser.js)\<close>

text \<open>A label is a string or an object, whose \<open>name\<close> is a string or missing.\<close>

datatype label = LabelString string | LabelObject "string option"

definition label_name :: "label \<Rightarrow> string" where
  "label_name l =
     (case l of
        LabelString s \<Rightarrow> toLowerCase s
      | LabelObject None \<Rightarrow> []
      | LabelObject (Some n) \<Rightarrow> or_empty (Some (toLowerCase n)))"

text \<open>The title is a string, or absent (\<open>title || ''\<close>).\<close>

definition detectIssueType :: "string option \<Rightarrow> label list \<Rightarrow> kind" where
  "detectIssueType title labels =
     (let titleLower = toLowerCase (or_empty title);
          labelNames = map label_name labels
      in if ''update'' \<in> set labelNames \<or> ''update-record'' \<in> set labelNames then Update
         else if ''create'' \<in> set labelNames \<or> ''create-record'' \<in> set labelNames then Create
         else if includes_str titleLower ''[update]'' \<or> startsWith titleLower ''update:'' then Update
         else if includes_str titleLower ''[create]'' \<or> startsWith titleLower ''create:'' then Create
         else Create)"

section \<open>Notions the claims are stated in\<close>

text \<open>
  The identifier value of a raw map: the value of the first of the keys \<open>recordId\<close>,
  \<open>record_id\<close>, \<open>id\<close> that is present with a value that is not empty.
\<close>

definition absent_or_empty :: "rawmap \<Rightarrow> string \<Rightarrow> bool" where
  "absent_or_empty data k \<longleftrightarrow> data k = None \<or> data k = Some []"

definition identifier_value :: "rawmap \<Rightarrow> string \<Rightarrow> bool" where
  "identifier_value data v \<longleftrightarrow>
     v \<noteq> [] \<and>
     (data ''recordId'' = Some v
      \<or> absent_or_empty data ''recordId'' \<and>
         (data ''record_id'' = Some v
          \<or> absent_or_empty data ''record_id'' \<and> data ''id'' = Some v))"

text \<open>
  A numeric value in the words of the specification, a base-10 integer: digits, one at
  least, after at most one sign.
\<close>

definition base10_integer :: "string \<Rightarrow> bool" where
  "base10_integer v \<longleftrightarrow>
     (let ds = (if startsWith v ''-'' \<or> startsWith v ''+'' then tl v else v)
      in ds \<noteq> [] \<and> list_all is_digit ds)"

text \<open>
  A value that begins with an integer: white space, at most one sign, digits, one at
  least, and then anything.
\<close>

definition has_integer_prefix :: "string \<Rightarrow> bool" where
  "has_integer_prefix v \<longleftrightarrow>
     (\<exists>ws sg ds rest. v = ws @ sg @ ds @ rest \<and> list_all is_space ws
        \<and> (sg = [] \<or> sg = ''+'' \<or> sg = ''-'') \<and> ds \<noteq> [] \<and> list_all is_digit ds)"

text \<open>
  The rules of the classifier, in the words of the specification: a label set contains
  a name, a title contains a token, a title starts with a token, each without regard
  to case.
\<close>

definition has_label :: "label list \<Rightarrow> string \<Rightarrow> bool" where
  "has_label labels nm \<longleftrightarrow>
     (\<exists>l \<in> set labels. \<exists>s. (l = LabelString s \<or> l = LabelObject (Some s)) \<and> toLowerCase s = nm)"

definition title_contains :: "string \<Rightarrow> string \<Rightarrow> bool" where
  "title_contains t tok \<longleftrightarrow> (\<exists>pre mid post. t = pre @ mid @ post \<and> toLowerCase mid = tok)"

definition title_begins :: "string \<Rightarrow> string \<Rightarrow> bool" where
  "title_begins t tok \<longleftrightarrow> (\<exists>mid post. t = mid @ post \<and> toLowerCase mid = tok)"

text \<open>
  The frontmatter structure, delimiter, block, delimiter, remainder, on the lines of the
  text: the first line is a delimiter, \<open>---\<close> and at most white space after it, and so is
  a later line; the lines between the two are the block and the lines after the second
  are the remainder. Either may have no line.
\<close>

definition is_delimiter_line :: "string \<Rightarrow> bool" where
  "is_delimiter_line l \<longleftrightarrow> startsWith l ''---'' \<and> list_all is_space (drop 3 l)"

definition frontmatter_shape :: "string \<Rightarrow> bool" where
  "frontmatter_shape t \<longleftrightarrow>
     (case split_lines t of
        [] \<Rightarrow> False
      | d # ls \<Rightarrow> is_delimiter_line d \<and> list_ex is_delimiter_line ls)"

section \<open>Inputs to run the code on\<close>

definition two_store :: store where
  "two_store = \<lparr>rows = [alice_row, alice_row\<lparr>u_id := 2, u_github_username := ''carol''\<rparr>],
                 seq = 2\<rparr>"

text \<open>A table whose largest rowid is \<open>2^53\<close>.\<close>

definition big_store :: store where
  "big_store = \<lparr>rows = [alice_row\<lparr>u_id := 9007199254740992, u_name := ''Zed''\<rparr>],
                 seq = 9007199254740992\<rparr>"

text \<open>A frontmatter with text after it, and one that ends with its closing delimiter.\<close>

definition body_closed :: string where
  "body_closed = '' ---\<newline>name: Bob\<newline>---\<newline>rest\<newline>''"

definition body_frontmatter_only :: string where
  "body_frontmatter_only = ''---\<newline>name: Bob\<newline>state: TX\<newline>---\<newline>''"

definition body_empty_block :: string where
  "body_empty_block = ''---\<newline>---\<newline>rest''"

section \<open>Facts about the store\<close>

lemma find_append_fresh:
  "\<forall>x \<in> set xs. \<not> P x \<Longrightarrow> P y \<Longrightarrow> find P (xs @ [y]) = Some y"
  by (induction xs) auto

lemma fold_max_ge_init: "(a::int) \<le> fold max xs a"
proof (induction xs arbitrary: a)
  case Nil
  show ?case by simp
next
  case (Cons x xs)
  have "a \<le> max x a" by simp
  also have "\<dots> \<le> fold max xs (max x a)" by (rule Cons.IH)
  finally show ?case by simp
qed

lemma fold_max_ge_elem: "x \<in> set xs \<Longrightarrow> (x::int) \<le> fold max xs a"
proof (induction xs arbitrary: a)
  case Nil
  then show ?case by simp
next
  case (Cons y ys)
  show ?case
  proof (cases "x = y")
    case True
    have "x \<le> max y a" using True by simp
    also have "\<dots> \<le> fold max ys (max y a)" by (rule fold_max_ge_init)
    finally show ?thesis by simp
  next
    case False
    with Cons.prems have "x \<in> set ys" by simp
    then show ?thesis by (simp add: Cons.IH)
  qed
qed

lemma max_rowid_fresh: "r \<in> set (rows st) \<Longrightarrow> u_id r \<noteq> max_rowid st + 1"
proof -
  assume "r \<in> set (rows st)"
  then have "u_id r \<in> set (map u_id (rows st))" by simp
  then have "u_id r \<le> max_rowid st"
    unfolding max_rowid_def by (rule fold_max_ge_elem)
  then show ?thesis by simp
qed

lemma sql_insert_get:
  assumes "sql_insert st nm stt opts user now = Inr (i, st')"
  shows "getRecord st' i =
           Some \<lparr>u_id = i, u_name = nm, u_state = stt, u_options = opts,
                 u_github_username = user, u_created_at = now, u_updated_at = now\<rparr>"
proof -
  from assms have i: "i = max_rowid st + 1"
    and st': "st' = st\<lparr>rows := rows st @
        [\<lparr>u_id = i, u_name = nm, u_state = stt, u_options = opts,
          u_github_username = user, u_created_at = now, u_updated_at = now\<rparr>], seq := i\<rparr>"
    by (auto simp: sql_insert_def Let_def split: if_splits)
  have "\<forall>r \<in> set (rows st). \<not> u_id r = i"
    using max_rowid_fresh i by blast
  then show ?thesis
    unfolding getRecord_def st' by (simp add: find_append_fresh)
qed

lemma sql_insert_rows:
  assumes "sql_insert st nm stt opts user now = Inr (i, st')"
  shows "i = max_rowid st + 1"
    and "rows st' = rows st @ [\<lparr>u_id = i, u_name = nm, u_state = stt, u_options = opts,
            u_github_username = user, u_created_at = now, u_updated_at = now\<rparr>]"
    and "i \<notin> u_id ` set (rows st)"
proof -
  from assms show i: "i = max_rowid st + 1"
    and "rows st' = rows st @ [\<lparr>u_id = i, u_name = nm, u_state = stt, u_options = opts,
            u_github_username = user, u_created_at = now, u_updated_at = now\<rparr>]"
    by (auto simp: sql_insert_def Let_def split: if_splits)
  show "i \<notin> u_id ` set (rows st)"
    using max_rowid_fresh i by blast
qed

lemma createRecord_result:
  assumes "createRecord st nm stt opts user now = (Inr res, st')"
  shows "\<exists>i. i = max_rowid st + 1 \<and> i \<notin> u_id ` set (rows st)
           \<and> rows st' = rows st @ [\<lparr>u_id = i, u_name = nm, u_state = stt,
                  u_options = or_null opts, u_github_username = user,
                  u_created_at = now, u_updated_at = now\<rparr>]
           \<and> getRecord st' i = Some \<lparr>u_id = i, u_name = nm, u_state = stt,
                  u_options = or_null opts, u_github_username = user,
                  u_created_at = now, u_updated_at = now\<rparr>
           \<and> res = getRecord st' (js_number i)"
proof -
  from assms obtain i where ins: "sql_insert st nm stt (or_null opts) user now = Inr (i, st')"
    and res: "res = getRecord st' (js_number i)"
    by (auto simp: createRecord_def Let_def split: sum.splits prod.splits)
  from sql_insert_get [OF ins] sql_insert_rows [OF ins] res show ?thesis by blast
qed

lemma find_in_set: "find P xs = Some x \<Longrightarrow> x \<in> set xs \<and> P x"
  by (induction xs) (auto split: if_splits)

lemma createRecord_new_row:
  assumes "createRecord st nm stt opts user now = (Inr (Some r), st')"
    and "u_id r \<notin> u_id ` set (rows st)"
  shows "r = \<lparr>u_id = max_rowid st + 1, u_name = nm, u_state = stt,
               u_options = or_null opts, u_github_username = user,
               u_created_at = now, u_updated_at = now\<rparr>"
    and "rows st' = rows st @ [r]"
    and "getRecord st' (u_id r) = Some r"
proof -
  define new where "new = \<lparr>u_id = max_rowid st + 1, u_name = nm, u_state = stt,
               u_options = or_null opts, u_github_username = user,
               u_created_at = now, u_updated_at = now\<rparr>"
  from createRecord_result [OF assms(1)] have
    rows: "rows st' = rows st @ [new]"
    and get: "getRecord st' (max_rowid st + 1) = Some new"
    and res: "Some r = getRecord st' (js_number (max_rowid st + 1))"
    unfolding new_def by auto
  from res have "r \<in> set (rows st')"
    unfolding getRecord_def using find_in_set [of _ "rows st'" r] by simp
  with rows assms(2) show r: "r = new" by auto
  from rows r show "rows st' = rows st @ [r]" by simp
  from get r show "getRecord st' (u_id r) = Some r" by (simp add: new_def)
qed

lemma find_map_update:
  assumes "find (\<lambda>r. u_id r = i) xs = Some old" and "\<And>r. u_id (f r) = u_id r"
  shows "find (\<lambda>r. u_id r = i) (map f xs) = Some (f old)"
  using assms by (induction xs) (auto split: if_splits)

lemma find_map_other:
  assumes "\<And>r. u_id (f r) = u_id r" and "\<And>r. u_id r = j \<Longrightarrow> f r = r"
  shows "find (\<lambda>r. u_id r = j) (map f xs) = find (\<lambda>r. u_id r = j) xs"
  using assms by (induction xs) auto

lemma updateRecord_success:
  assumes "updateRecord st i nm stt opts user now = (Inr res, st')"
  shows "\<exists>old. getRecord st i = Some old \<and> u_github_username old = user
           \<and> st' = snd (sql_update st nm stt (or_null opts) i user now)
           \<and> res = Some (old\<lparr>u_name := nm, u_state := stt, u_options := or_null opts,
                              u_updated_at := now\<rparr>)
           \<and> getRecord st' i = res"
proof -
  from assms obtain old where old: "getRecord st i = Some old"
    by (auto simp: updateRecord_def split: option.splits)
  with assms have user: "u_github_username old = user"
    and st': "st' = snd (sql_update st nm stt (or_null opts) i user now)"
    and res: "res = getRecord st' i"
    by (auto simp: updateRecord_def split: if_splits prod.splits)
  from old have "u_id old = i"
    unfolding getRecord_def by (auto dest: find_Some_iff [THEN iffD1])
  with user have m: "update_matches i user old" by (simp add: update_matches_def)
  have "getRecord st' i = Some (old\<lparr>u_name := nm, u_state := stt, u_options := or_null opts,
                              u_updated_at := now\<rparr>)"
    using find_map_update [OF old [unfolded getRecord_def],
        of "\<lambda>r. if update_matches i user r
                 then r\<lparr>u_name := nm, u_state := stt, u_options := or_null opts,
                        u_updated_at := now\<rparr>
                 else r"] m
    by (simp add: st' sql_update_def getRecord_def)
  with old user st' res show ?thesis by simp
qed

lemma sql_update_other:
  "j \<noteq> i \<Longrightarrow> getRecord (snd (sql_update st nm stt opts i user now)) j = getRecord st j"
  unfolding sql_update_def getRecord_def
  by (simp add: find_map_other update_matches_def)

lemma sql_update_rows:
  "length (rows (snd (sql_update st nm stt opts i user now))) = length (rows st)"
  "k < length (rows st) \<Longrightarrow> u_id (rows st ! k) \<noteq> i \<Longrightarrow>
     rows (snd (sql_update st nm stt opts i user now)) ! k = rows st ! k"
  "seq (snd (sql_update st nm stt opts i user now)) = seq st"
  by (simp_all add: sql_update_def update_matches_def)

lemma ulp_small: "m < 9007199254740992 \<Longrightarrow> ulp m = 1"
  by (simp add: ulp_def eval_nat_numeral)

lemma js_number_exact:
  assumes "\<bar>i\<bar> \<le> 9007199254740992"
  shows "js_number i = i"
proof (cases "\<bar>i\<bar> = 9007199254740992")
  case True
  then have "i = 9007199254740992 \<or> i = - 9007199254740992" by arith
  moreover have "js_number 9007199254740992 = 9007199254740992"
    by code_simp
  moreover have "js_number (- 9007199254740992) = - 9007199254740992"
    by code_simp
  ultimately show ?thesis by auto
next
  case False
  with assms have "\<bar>i\<bar> < 9007199254740992" by simp
  then have "ulp \<bar>i\<bar> = 1" by (rule ulp_small)
  then show ?thesis by (simp add: js_number_def Let_def mult_sgn_abs)
qed

lemma createRecord_succeeds:
  assumes "0 \<le> seq st" and "max_rowid st < 9007199254740992"
  shows "\<exists>r st'. createRecord st nm stt opts user now = (Inr (Some r), st')
           \<and> u_id r = max_rowid st + 1 \<and> u_id r \<notin> u_id ` set (rows st)"
proof -
  from assms(2) obtain i st' where
    ins: "sql_insert st nm stt (or_null opts) user now = Inr (i, st')"
    by (auto simp: sql_insert_def Let_def)
  note i = sql_insert_rows(1) [OF ins] and fresh = sql_insert_rows(3) [OF ins]
  have "seq st \<le> max_rowid st"
    unfolding max_rowid_def by (rule fold_max_ge_init)
  with assms i have "\<bar>i\<bar> \<le> 9007199254740992" by simp
  then have "js_number i = i" by (rule js_number_exact)
  with sql_insert_get [OF ins] ins i fresh show ?thesis
    by (simp add: createRecord_def Let_def)
qed

text \<open>
  Beyond \<open>2^53\<close> the number is rounded: on a table whose largest rowid is \<open>2^53\<close> the new
  row gets the rowid \<open>2^53 + 1\<close>, and \<open>createRecord\<close> returns the row with the rowid \<open>2^53\<close>.
\<close>

lemma createRecord_rounded_rowid:
  "createRecord big_store ''Alice'' ''CA'' (Some ''opt1'') ''alice'' ''2024-01-01 00:00:00''
     = (Inr (Some (alice_row\<lparr>u_id := 9007199254740992, u_name := ''Zed''\<rparr>)),
        \<lparr>rows = [alice_row\<lparr>u_id := 9007199254740992, u_name := ''Zed''\<rparr>,
                 alice_row\<lparr>u_id := 9007199254740993\<rparr>],
         seq = 9007199254740993\<rparr>)"
  by code_simp

lemma updateRecord_succeeds:
  assumes "getRecord st i = Some old" and "u_github_username old = user"
  shows "\<exists>r st'. updateRecord st i nm stt opts user now = (Inr (Some r), st')"
proof -
  from assms(1) have "old \<in> set (rows st)" "u_id old = i"
    unfolding getRecord_def by (auto simp: find_Some_iff)
  with assms(2) have "old \<in> set (filter (update_matches i user) (rows st))"
    by (simp add: update_matches_def)
  then have c: "fst (sql_update st nm stt (or_null opts) i user now) \<noteq> 0"
    by (auto simp: sql_update_def filter_empty_conv)
  obtain changes st' where u: "sql_update st nm stt (or_null opts) i user now = (changes, st')"
    by (cases "sql_update st nm stt (or_null opts) i user now")
  with c have c': "changes \<noteq> 0" by simp
  have r: "updateRecord st i nm stt opts user now = (Inr (getRecord st' i), st')"
    using assms u c' by (simp add: updateRecord_def)
  from updateRecord_success [OF r] r show ?thesis by auto
qed

section \<open>The claims about the store\<close>

text \<open>
  Claim C1. An update of an id that no row has fails with \<open>RecordNotFound\<close>; an update
  of a row whose owner is not the caller fails with \<open>Unauthorized\<close>; the store after
  either failure is the store before it, every row and every field.
\<close>

theorem updateRecord_failure_leaves_store:
  "(getRecord st i = None \<longrightarrow>
      updateRecord st i nm stt opts user now = (Inl (RecordNotFound i), st))
   \<and> (\<forall>existing. getRecord st i = Some existing \<and> u_github_username existing \<noteq> user \<longrightarrow>
        updateRecord st i nm stt opts user now
          = (Inl (Unauthorized (u_github_username existing) user), st))"
  by (simp add: updateRecord_def)

theorem updateRecord_failure_leaves_store_witness:
  "getRecord empty_store 99999 = None
   \<and> updateRecord empty_store 99999 ''Bob'' ''TX'' None ''bob'' ''2024-02-02 00:00:00''
       = (Inl (RecordNotFound 99999), empty_store)
   \<and> getRecord alice_store 1 = Some alice_row
   \<and> u_github_username alice_row \<noteq> ''bob''
   \<and> updateRecord alice_store 1 ''Bob'' ''TX'' None ''bob'' ''2024-02-02 00:00:00''
       = (Inl (Unauthorized ''alice'' ''bob''), alice_store)"
proof -
  have a: "getRecord empty_store 99999 = None"
    by (simp add: getRecord_def empty_store_def)
  have b: "getRecord alice_store 1 = Some alice_row"
    by (simp add: getRecord_def alice_store_def alice_row_def)
  have c: "u_github_username alice_row \<noteq> ''bob''" "u_github_username alice_row = ''alice''"
    by (simp_all add: alice_row_def)
  from updateRecord_failure_leaves_store
    [of empty_store 99999 "''Bob''" "''TX''" None "''bob''" "''2024-02-02 00:00:00''"]
    updateRecord_failure_leaves_store
    [of alice_store 1 "''Bob''" "''TX''" None "''bob''" "''2024-02-02 00:00:00''"]
    a b c
  show ?thesis by auto
qed

text \<open>
  Claim C2. When \<open>create("Alice", "CA", "opt1", "alice")\<close> returns a new record, a row
  whose id no row of the table had, that row is the one added to the table, \<open>get\<close> of its
  id in the store after the call returns it, its name is Alice, its state CA, its
  options opt1, its owner alice, and its \<open>updated_at\<close> is its \<open>created_at\<close>. On a table
  whose rowids are below \<open>2^53\<close> the call does return such a record, with the next rowid.
\<close>

theorem create_then_get_roundtrip:
  "(createRecord st ''Alice'' ''CA'' (Some ''opt1'') ''alice'' now = (Inr (Some r), st')
      \<and> u_id r \<notin> u_id ` set (rows st)
    \<longrightarrow> getRecord st' (u_id r) = Some r
        \<and> u_name r = ''Alice'' \<and> u_state r = ''CA'' \<and> u_options r = Some ''opt1''
        \<and> u_github_username r = ''alice'' \<and> u_updated_at r = u_created_at r
        \<and> rows st' = rows st @ [r])
   \<and> (0 \<le> seq st \<and> max_rowid st < 9007199254740992
    \<longrightarrow> (\<exists>r st'. createRecord st ''Alice'' ''CA'' (Some ''opt1'') ''alice'' now
                     = (Inr (Some r), st')
           \<and> u_id r = max_rowid st + 1 \<and> u_id r \<notin> u_id ` set (rows st)))"
proof -
  have a: "getRecord st' (u_id r) = Some r
        \<and> u_name r = ''Alice'' \<and> u_state r = ''CA'' \<and> u_options r = Some ''opt1''
        \<and> u_github_username r = ''alice'' \<and> u_updated_at r = u_created_at r
        \<and> rows st' = rows st @ [r]"
    if c: "createRecord st ''Alice'' ''CA'' (Some ''opt1'') ''alice'' now = (Inr (Some r), st')"
      and n: "u_id r \<notin> u_id ` set (rows st)"
  proof -
    note new = createRecord_new_row [OF c n]
    have "u_name r = ''Alice'' \<and> u_state r = ''CA'' \<and> u_options r = Some ''opt1''
        \<and> u_github_username r = ''alice'' \<and> u_updated_at r = u_created_at r"
      by (subst (1 2 3 4 5 6) new(1)) (simp add: or_null_def)
    with new(2,3) show ?thesis by simp
  qed
  have b: "\<exists>r st'. createRecord st ''Alice'' ''CA'' (Some ''opt1'') ''alice'' now
                     = (Inr (Some r), st')
           \<and> u_id r = max_rowid st + 1 \<and> u_id r \<notin> u_id ` set (rows st)"
    if "0 \<le> seq st" and "max_rowid st < 9007199254740992"
    using that by (rule createRecord_succeeds)
  from a b show ?thesis by blast
qed

theorem create_then_get_roundtrip_witness:
  "createRecord empty_store ''Alice'' ''CA'' (Some ''opt1'') ''alice'' ''2024-01-01 00:00:00''
     = (Inr (Some alice_row), alice_store)
   \<and> u_id alice_row \<notin> u_id ` set (rows empty_store)
   \<and> getRecord alice_store (u_id alice_row) = Some alice_row
   \<and> u_name alice_row = ''Alice'' \<and> u_state alice_row = ''CA''
   \<and> u_options alice_row = Some ''opt1'' \<and> u_github_username alice_row = ''alice''
   \<and> u_updated_at alice_row = u_created_at alice_row
   \<and> rows alice_store = rows empty_store @ [alice_row]
   \<and> 0 \<le> seq empty_store \<and> max_rowid empty_store < 9007199254740992"
proof -
  have j: "js_number 1 = 1" by code_simp
  have c: "createRecord empty_store ''Alice'' ''CA'' (Some ''opt1'') ''alice''
             ''2024-01-01 00:00:00'' = (Inr (Some alice_row), alice_store)"
    by (simp add: createRecord_def sql_insert_def max_rowid_def or_null_def getRecord_def
        empty_store_def alice_store_def alice_row_def j)
  have n: "u_id alice_row \<notin> u_id ` set (rows empty_store)"
    and m: "0 \<le> seq empty_store" "max_rowid empty_store < 9007199254740992"
    by (simp_all add: empty_store_def max_rowid_def)
  from create_then_get_roundtrip
    [of empty_store "''2024-01-01 00:00:00''" alice_row alice_store] c n
  have g: "getRecord alice_store (u_id alice_row) = Some alice_row
   \<and> u_name alice_row = ''Alice'' \<and> u_state alice_row = ''CA''
   \<and> u_options alice_row = Some ''opt1'' \<and> u_github_username alice_row = ''alice''
   \<and> u_updated_at alice_row = u_created_at alice_row
   \<and> rows alice_store = rows empty_store @ [alice_row]"
    by blast
  from c n m g show ?thesis by blast
qed

text \<open>
  Claim C9. A successful update rewrites the name, the state, the options and
  \<open>updated_at\<close> of the row with the given id and nothing else: the row keeps its id, its
  owner and its \<open>created_at\<close>, the table keeps its length, every row with another id is
  the row it was, and \<open>get\<close> of any other id returns what it returned before.
\<close>

theorem updateRecord_success_frame:
  assumes "updateRecord st i nm stt opts user now = (Inr res, st')"
  shows "\<exists>old new. getRecord st i = Some old \<and> res = Some new \<and> getRecord st' i = Some new
           \<and> new = old\<lparr>u_name := nm, u_state := stt, u_options := or_null opts,
                         u_updated_at := now\<rparr>
           \<and> u_id new = u_id old \<and> u_github_username new = u_github_username old
           \<and> u_created_at new = u_created_at old
           \<and> (\<forall>j. j \<noteq> i \<longrightarrow> getRecord st' j = getRecord st j)
           \<and> length (rows st') = length (rows st)
           \<and> (\<forall>k < length (rows st). u_id (rows st ! k) \<noteq> i \<longrightarrow> rows st' ! k = rows st ! k)"
proof -
  from updateRecord_success [OF assms] obtain old where
    old: "getRecord st i = Some old"
    and st': "st' = snd (sql_update st nm stt (or_null opts) i user now)"
    and res: "res = Some (old\<lparr>u_name := nm, u_state := stt, u_options := or_null opts,
                              u_updated_at := now\<rparr>)"
    and get: "getRecord st' i = res"
    by blast
  have other: "\<forall>j. j \<noteq> i \<longrightarrow> getRecord st' j = getRecord st j"
    unfolding st' by (simp add: sql_update_other)
  have len: "length (rows st') = length (rows st)"
    unfolding st' by (rule sql_update_rows)
  have same: "\<forall>k < length (rows st). u_id (rows st ! k) \<noteq> i \<longrightarrow> rows st' ! k = rows st ! k"
    unfolding st' by (simp add: sql_update_rows)
  from old res get other len same show ?thesis by simp
qed

theorem updateRecord_success_frame_witness:
  "updateRecord two_store 1 ''Alicia'' ''NY'' (Some ''opt2'') ''alice'' ''2024-03-03 00:00:00''
     = (Inr (Some (alice_row\<lparr>u_name := ''Alicia'', u_state := ''NY'', u_options := Some ''opt2'',
                              u_updated_at := ''2024-03-03 00:00:00''\<rparr>)),
        two_store\<lparr>rows := [alice_row\<lparr>u_name := ''Alicia'', u_state := ''NY'',
                                       u_options := Some ''opt2'',
                                       u_updated_at := ''2024-03-03 00:00:00''\<rparr>,
                            alice_row\<lparr>u_id := 2, u_github_username := ''carol''\<rparr>]\<rparr>)
   \<and> getRecord two_store 1 = Some alice_row
   \<and> getRecord (two_store\<lparr>rows := [alice_row\<lparr>u_name := ''Alicia'', u_state := ''NY'',
                                       u_options := Some ''opt2'',
                                       u_updated_at := ''2024-03-03 00:00:00''\<rparr>,
                            alice_row\<lparr>u_id := 2, u_github_username := ''carol''\<rparr>]\<rparr>) 2
       = getRecord two_store 2"
proof -
  have u: "updateRecord two_store 1 ''Alicia'' ''NY'' (Some ''opt2'') ''alice''
      ''2024-03-03 00:00:00''
     = (Inr (Some (alice_row\<lparr>u_name := ''Alicia'', u_state := ''NY'', u_options := Some ''opt2'',
                              u_updated_at := ''2024-03-03 00:00:00''\<rparr>)),
        two_store\<lparr>rows := [alice_row\<lparr>u_name := ''Alicia'', u_state := ''NY'',
                                       u_options := Some ''opt2'',
                                       u_updated_at := ''2024-03-03 00:00:00''\<rparr>,
                            alice_row\<lparr>u_id := 2, u_github_username := ''carol''\<rparr>]\<rparr>)"
    by (simp add: updateRecord_def sql_update_def update_matches_def getRecord_def or_null_def
        two_store_def alice_row_def)
  have g1: "getRecord two_store 1 = Some alice_row"
    by (simp add: getRecord_def two_store_def alice_row_def)
  from updateRecord_success_frame [OF u] have
    "getRecord (two_store\<lparr>rows := [alice_row\<lparr>u_name := ''Alicia'', u_state := ''NY'',
                                       u_options := Some ''opt2'',
                                       u_updated_at := ''2024-03-03 00:00:00''\<rparr>,
                            alice_row\<lparr>u_id := 2, u_github_username := ''carol''\<rparr>]\<rparr>) 2
       = getRecord two_store 2"
    by auto
  with u g1 show ?thesis by simp
qed

text \<open>
  Claim C10. An options argument that is the empty string, \<open>null\<close> or \<open>undefined\<close> is
  stored as \<open>NULL\<close>: the row a create adds to the table has no options, and it is the
  row \<open>get\<close> returns for its id afterwards (and the row the create returns, when its id
  is a JavaScript number); the row a successful update returns has no options, and it
  is the row \<open>get\<close> returns for that id afterwards.
\<close>

theorem falsy_options_stored_as_null:
  assumes "opts = None \<or> opts = Some []"
  shows "(createRecord st nm stt opts user now = (Inr res, st') \<longrightarrow>
            (\<exists>r. rows st' = rows st @ [r] \<and> u_options r = None
               \<and> getRecord st' (u_id r) = Some r
               \<and> (js_number (u_id r) = u_id r \<longrightarrow> res = Some r)))
       \<and> (updateRecord st i nm stt opts user now = (Inr res2, st2) \<longrightarrow>
            (\<exists>r. res2 = Some r \<and> u_options r = None \<and> getRecord st2 i = Some r))"
proof -
  from assms have n: "or_null opts = None" by (auto simp: or_null_def)
  have c: "\<exists>r. rows st' = rows st @ [r] \<and> u_options r = None
               \<and> getRecord st' (u_id r) = Some r
               \<and> (js_number (u_id r) = u_id r \<longrightarrow> res = Some r)"
    if "createRecord st nm stt opts user now = (Inr res, st')"
    using createRecord_result [OF that] n by auto
  have u: "\<exists>r. res2 = Some r \<and> u_options r = None \<and> getRecord st2 i = Some r"
    if "updateRecord st i nm stt opts user now = (Inr res2, st2)"
    using updateRecord_success [OF that] n by auto
  from c u show ?thesis by blast
qed

theorem falsy_options_stored_as_null_witness:
  "createRecord empty_store ''Alice'' ''CA'' (Some []) ''alice'' ''2024-01-01 00:00:00''
     = (Inr (Some (alice_row\<lparr>u_options := None\<rparr>)),
        alice_store\<lparr>rows := [alice_row\<lparr>u_options := None\<rparr>]\<rparr>)
   \<and> getRecord (alice_store\<lparr>rows := [alice_row\<lparr>u_options := None\<rparr>]\<rparr>) 1
       = Some (alice_row\<lparr>u_options := None\<rparr>)
   \<and> updateRecord alice_store 1 ''Alice'' ''CA'' (Some []) ''alice'' ''2024-01-01 00:00:00''
     = (Inr (Some (alice_row\<lparr>u_options := None\<rparr>)),
        alice_store\<lparr>rows := [alice_row\<lparr>u_options := None\<rparr>]\<rparr>)"
proof -
  have j: "js_number 1 = 1" by code_simp
  have c: "createRecord empty_store ''Alice'' ''CA'' (Some []) ''alice'' ''2024-01-01 00:00:00''
     = (Inr (Some (alice_row\<lparr>u_options := None\<rparr>)),
        alice_store\<lparr>rows := [alice_row\<lparr>u_options := None\<rparr>]\<rparr>)"
    by (simp add: createRecord_def sql_insert_def max_rowid_def or_null_def getRecord_def
        empty_store_def alice_store_def alice_row_def j)
  have u: "updateRecord alice_store 1 ''Alice'' ''CA'' (Some []) ''alice''
      ''2024-01-01 00:00:00''
     = (Inr (Some (alice_row\<lparr>u_options := None\<rparr>)),
        alice_store\<lparr>rows := [alice_row\<lparr>u_options := None\<rparr>]\<rparr>)"
    by (simp add: updateRecord_def sql_update_def update_matches_def getRecord_def or_null_def
        alice_store_def alice_row_def)
  have h: "Some [] = None \<or> Some [] = Some ([]::string)" by simp
  from falsy_options_stored_as_null [where opts = "Some []" and st = empty_store
      and nm = "''Alice''" and stt = "''CA''" and user = "''alice''"
      and now = "''2024-01-01 00:00:00''"
      and res = "Some (alice_row\<lparr>u_options := None\<rparr>)"
      and st' = "alice_store\<lparr>rows := [alice_row\<lparr>u_options := None\<rparr>]\<rparr>"
      and i = 1, OF h] c
  have "getRecord (alice_store\<lparr>rows := [alice_row\<lparr>u_options := None\<rparr>]\<rparr>) 1
       = Some (alice_row\<lparr>u_options := None\<rparr>)"
    by (auto simp: alice_row_def empty_store_def alice_store_def)
  with c u show ?thesis by simp
qed

section \<open>Facts about the parser and the validator\<close>

lemma is_space_sign_digit:
  "\<not> is_space CHR ''+''" "\<not> is_space CHR ''-''" "is_digit c \<Longrightarrow> \<not> is_space c"
  "\<not> is_digit CHR ''+''" "\<not> is_digit CHR ''-''"
  by (auto simp: is_space_def is_digit_def Let_def)

lemma parseInt_NaN_iff: "parseInt s = NaN \<longleftrightarrow> \<not> has_integer_prefix s"
proof
  assume nan: "parseInt s = NaN"
  show "\<not> has_integer_prefix s"
  proof
    assume "has_integer_prefix s"
    then obtain ws sg ds rest where s: "s = ws @ sg @ ds @ rest"
      and ws: "list_all is_space ws" and sg: "sg = [] \<or> sg = ''+'' \<or> sg = ''-''"
      and ds: "ds \<noteq> []" "list_all is_digit ds"
      unfolding has_integer_prefix_def by blast
    from ds obtain d ds' where d: "ds = d # ds'" "is_digit d"
      by (cases ds) auto
    have t: "dropWhile is_space s = sg @ ds @ rest"
    proof -
      have "dropWhile is_space s = dropWhile is_space (sg @ ds @ rest)"
        unfolding s using ws by (intro dropWhile_append2) (simp add: list_all_iff)
      also have "\<dots> = sg @ ds @ rest"
        using sg d by (auto simp: is_space_sign_digit)
      finally show ?thesis .
    qed
    have "d \<noteq> CHR ''-''" "d \<noteq> CHR ''+''"
      using d(2) is_space_sign_digit by auto
    then have "takeWhile is_digit
        (if startsWith (sg @ ds @ rest) ''-'' \<or> startsWith (sg @ ds @ rest) ''+''
         then tl (sg @ ds @ rest) else sg @ ds @ rest) \<noteq> []"
      using sg d by (auto simp: startsWith_def)
    with nan show False
      by (simp add: parseInt_def Let_def t split: if_splits)
  qed
next
  assume no: "\<not> has_integer_prefix s"
  show "parseInt s = NaN"
  proof (rule ccontr)
    assume nn: "parseInt s \<noteq> NaN"
    define t where "t = dropWhile is_space s"
    define u where "u = (if startsWith t ''-'' \<or> startsWith t ''+'' then tl t else t)"
    define sg where "sg = (if startsWith t ''-'' then ''-'' else if startsWith t ''+'' then ''+'' else [])"
    from nn have z: "takeWhile is_digit u \<noteq> []"
      by (auto simp: parseInt_def Let_def t_def u_def split: if_splits)
    have 1: "s = takeWhile is_space s @ t" by (simp add: t_def)
    have 2: "t = sg @ u"
      by (cases t) (auto simp: sg_def u_def startsWith_def)
    have 3: "u = takeWhile is_digit u @ dropWhile is_digit u" by simp
    have "s = takeWhile is_space s @ sg @ takeWhile is_digit u @ dropWhile is_digit u"
      using 1 2 3 by metis
    moreover have "list_all is_space (takeWhile is_space s)"
      by (auto simp: list_all_iff dest: set_takeWhileD)
    moreover have "list_all is_digit (takeWhile is_digit u)"
      by (auto simp: list_all_iff dest: set_takeWhileD)
    moreover have "sg = [] \<or> sg = ''+'' \<or> sg = ''-''" by (simp add: sg_def)
    ultimately have "has_integer_prefix s"
      unfolding has_integer_prefix_def using z by blast
    with no show False by contradiction
  qed
qed

lemma truthy_iff: "truthy v \<longleftrightarrow> (\<exists>s. v = Some s \<and> s \<noteq> [])"
  by (auto simp: truthy_def split: option.splits)

lemma identifier_value_js_or:
  "identifier_value data v \<longleftrightarrow>
     v \<noteq> [] \<and> js_or (data ''recordId'') (js_or (data ''record_id'') (js_or (data ''id'') None)) = Some v"
  unfolding identifier_value_def absent_or_empty_def js_or_def truthy_def
  by (auto split: option.splits)

lemma normalize_identifier:
  assumes "identifier_value data v"
  shows "normalizeParsedData data =
    (case parseInt v of NaN \<Rightarrow> Inl (InvalidRecordId v)
     | Num n \<Rightarrow> Inr \<lparr>p_type = Update, p_name = or_empty (data ''name''),
             p_state = or_empty (data ''state''),
             p_options = or_empty (data ''options''),
             p_recordId = Some (Num n)\<rparr>)"
proof -
  from assms have v: "v \<noteq> []"
    and j: "js_or (data ''recordId'') (js_or (data ''record_id'') (js_or (data ''id'') None)) = Some v"
    by (simp_all add: identifier_value_js_or)
  have "truthy (js_or (data ''recordId'') (js_or (data ''record_id'') (data ''id'')))"
    using j v unfolding js_or_def truthy_def by (auto split: option.splits if_splits)
  then show ?thesis
    unfolding normalizeParsedData_def Let_def j using v
    by (simp split: jsnum.splits)
qed


lemma identifier_value_iff_truthy:
  "(\<exists>v. identifier_value data v) \<longleftrightarrow>
     truthy (data ''recordId'') \<or> truthy (data ''record_id'') \<or> truthy (data ''id'')"
  unfolding identifier_value_def absent_or_empty_def truthy_iff
  by (cases "data ''recordId''"; cases "data ''record_id''"; cases "data ''id''") auto

lemma normalize_no_identifier:
  assumes "\<not> (\<exists>v. identifier_value data v)"
  shows "normalizeParsedData data =
    Inr \<lparr>p_type = Create, p_name = or_empty (data ''name''),
             p_state = or_empty (data ''state''),
             p_options = or_empty (data ''options''),
             p_recordId = None\<rparr>"
proof -
  from assms have t: "\<not> truthy (data ''recordId'')" "\<not> truthy (data ''record_id'')"
    "\<not> truthy (data ''id'')"
    by (simp_all add: identifier_value_iff_truthy)
  then have 1: "js_or (data ''recordId'') (js_or (data ''record_id'') (data ''id'')) = data ''id''"
    and 2: "js_or (data ''recordId'') (js_or (data ''record_id'') (js_or (data ''id'') None)) = None"
    by (simp_all add: js_or_def)
  show ?thesis
    unfolding normalizeParsedData_def Let_def 1 2 using t by simp
qed

lemma normalize_kind:
  assumes "normalizeParsedData data = Inr r"
  shows "(p_type r = Update \<longleftrightarrow> (\<exists>v. identifier_value data v))
       \<and> (p_recordId r \<noteq> None \<longleftrightarrow> p_type r = Update)
       \<and> (p_type r = Create \<longleftrightarrow> \<not> (\<exists>v. identifier_value data v))"
proof (cases "\<exists>v. identifier_value data v")
  case True
  then obtain v where v: "identifier_value data v" by blast
  from normalize_identifier [OF v] assms obtain n where
    "r = \<lparr>p_type = Update, p_name = or_empty (data ''name''),
             p_state = or_empty (data ''state''),
             p_options = or_empty (data ''options''),
             p_recordId = Some (Num n)\<rparr>"
    by (cases "parseInt v") auto
  with True show ?thesis by simp
next
  case False
  from normalize_no_identifier [OF False] assms False show ?thesis by auto
qed

lemma record_id_check_iff:
  "\<not> (not_num v \<or> isNaN v) \<longleftrightarrow> (\<exists>n. v = Some (Num n) \<and> n \<noteq> 0)"
  by (cases v rule: option.exhaust; cases "the v")
     (auto simp: not_num_def isNaN_def)

lemma identifier_chain_null_or_truthy:
  "js_or a (js_or b (js_or c None)) = None \<or> truthy (js_or a (js_or b (js_or c None)))"
  by (simp add: js_or_def)

lemma missing_record_id_iff:
  "MissingRecordId \<in> set (errors (validateIssueData pd expected)) \<longleftrightarrow>
     expected = Update \<and>
     (p_recordId pd = None \<or> p_recordId pd = Some NaN \<or> p_recordId pd = Some (Num 0))"
  by (cases "p_recordId pd" rule: option.exhaust; cases "the (p_recordId pd)")
     (auto simp: validateIssueData_def Let_def not_num_def isNaN_def)

lemma validate_checks_independent:
  "TypeMismatch expected (p_type pd) \<in> set (errors (validateIssueData pd expected))
     \<longleftrightarrow> p_type pd \<noteq> expected"
  "MissingName \<in> set (errors (validateIssueData pd expected)) \<longleftrightarrow> trim (p_name pd) = []"
  "MissingState \<in> set (errors (validateIssueData pd expected)) \<longleftrightarrow> trim (p_state pd) = []"
  "isValid (validateIssueData pd expected) \<longleftrightarrow> errors (validateIssueData pd expected) = []"
  by (auto simp: validateIssueData_def Let_def trim_def)

lemma validate_name_and_state_nonzero_id:
  assumes "p_type pd = expected"
    and "expected = Update \<longrightarrow> (\<exists>n. p_recordId pd = Some (Num n) \<and> n \<noteq> 0)"
    and "trim (p_name pd) = []"
    and "trim (p_state pd) = []"
  shows "validateIssueData pd expected = \<lparr>isValid = False, errors = [MissingName, MissingState]\<rparr>"
  using assms by (auto simp: validateIssueData_def Let_def not_num_def isNaN_def)

lemma normalize_invalid_iff_no_integer_prefix:
  assumes "identifier_value data v"
  shows "normalizeParsedData data = Inl (InvalidRecordId v) \<longleftrightarrow> \<not> has_integer_prefix v"
    and "has_integer_prefix v \<Longrightarrow>
           \<exists>r n. normalizeParsedData data = Inr r \<and> p_type r = Update
                \<and> p_recordId r = Some (Num n) \<and> parseInt v = Num n"
proof -
  have n: "has_integer_prefix v \<longleftrightarrow> parseInt v \<noteq> NaN"
    by (simp add: parseInt_NaN_iff)
  show "normalizeParsedData data = Inl (InvalidRecordId v) \<longleftrightarrow> \<not> has_integer_prefix v"
    unfolding normalize_identifier [OF assms] n
    by (cases "parseInt v") simp_all
  show "\<exists>r n. normalizeParsedData data = Inr r \<and> p_type r = Update
                \<and> p_recordId r = Some (Num n) \<and> parseInt v = Num n"
    if "has_integer_prefix v"
    using that unfolding normalize_identifier [OF assms] n
    by (cases "parseInt v") simp_all
qed

section \<open>The claims about the normalizer and the validator\<close>

text \<open>
  Claim C3, as amended. When the normalizer succeeds, the kind of the record is UPDATE
  if and only if one of the keys \<open>recordId\<close>, \<open>record_id\<close>, \<open>id\<close> is present in the raw map
  with a value that is not empty, and CREATE otherwise; the \<open>recordId\<close> of the record is
  not \<open>null\<close> if and only if the kind is UPDATE.
\<close>

theorem normalize_kind_iff_nonempty_identifier:
  assumes "normalizeParsedData data = Inr r"
  shows "(p_type r = Update \<longleftrightarrow>
            (\<exists>k v. k \<in> set [''recordId'', ''record_id'', ''id''] \<and> data k = Some v \<and> v \<noteq> []))
       \<and> (p_recordId r \<noteq> None \<longleftrightarrow> p_type r = Update)
       \<and> (p_type r = Create \<longleftrightarrow>
            \<not> (\<exists>k v. k \<in> set [''recordId'', ''record_id'', ''id''] \<and> data k = Some v \<and> v \<noteq> []))"
proof -
  have "(\<exists>v. identifier_value data v) \<longleftrightarrow>
      (\<exists>k v. k \<in> set [''recordId'', ''record_id'', ''id''] \<and> data k = Some v \<and> v \<noteq> [])"
    unfolding identifier_value_iff_truthy truthy_iff by auto
  with normalize_kind [OF assms] show ?thesis by simp
qed

theorem normalize_kind_iff_nonempty_identifier_witness:
  "normalizeParsedData [''id'' \<mapsto> ''42'']
     = Inr \<lparr>p_type = Update, p_name = [], p_state = [], p_options = [],
            p_recordId = Some (Num 42)\<rparr>
   \<and> (\<exists>k v. k \<in> set [''recordId'', ''record_id'', ''id'']
          \<and> [''id'' \<mapsto> ''42''] k = Some v \<and> v \<noteq> [])"
proof -
  have n: "normalizeParsedData [''id'' \<mapsto> ''42'']
     = Inr \<lparr>p_type = Update, p_name = [], p_state = [], p_options = [],
            p_recordId = Some (Num 42)\<rparr>"
    by code_simp
  from normalize_kind_iff_nonempty_identifier [OF n] n show ?thesis by simp
qed

text \<open>
  The claim as it was stated fails on a raw map whose key \<open>id\<close> is present with the
  empty string: the kind is CREATE. The frontmatter line \<open>id: ""\<close> gives such a map.
\<close>

theorem normalize_present_empty_identifier_counterexample:
  "[''id'' \<mapsto> []] ''id'' = Some []
   \<and> normalizeParsedData [''id'' \<mapsto> []]
       = Inr \<lparr>p_type = Create, p_name = [], p_state = [], p_options = [], p_recordId = None\<rparr>"
  by (simp add: normalize_no_identifier identifier_value_def absent_or_empty_def or_empty_def
      js_or_def truthy_def)

lemma frontmatter_empty_identifier:
  "parseIssueBody (Some (''---\<newline>name: Bob\<newline>state: TX\<newline>id: '' @ [CHR 0x22, CHR 0x22]
       @ ''\<newline>---\<newline>rest''))
     = Inr \<lparr>p_type = Create, p_name = ''Bob'', p_state = ''TX'', p_options = [],
            p_recordId = None\<rparr>"
  by code_simp

text \<open>
  Claim C4. Against the expected kind UPDATE the validator should report
  \<open>MissingRecordId\<close> only for a \<open>recordId\<close> that is absent or \<open>NaN\<close>. The code tests
  \<open>!parsedData.recordId\<close>, which also holds of the integer 0: the section body with the
  record id 0 is normalized to an UPDATE of record 0, and the validator then reports
  that the record id is missing.
\<close>

theorem validate_record_id_zero_reported_missing:
  "parseIssueBody (Some ''### Name\<newline>Bob\<newline>### State\<newline>TX\<newline>### Record ID\<newline>0'')
     = Inr \<lparr>p_type = Update, p_name = ''Bob'', p_state = ''TX'', p_options = [],
            p_recordId = Some (Num 0)\<rparr>
   \<and> validateIssueData \<lparr>p_type = Update, p_name = ''Bob'', p_state = ''TX'', p_options = [],
                         p_recordId = Some (Num 0)\<rparr> Update
     = \<lparr>isValid = False, errors = [MissingRecordId]\<rparr>"
  by code_simp

text \<open>
  Claim C5. A record of the expected kind whose record id passes the check, and whose
  name and state are empty after trimming, should have the two errors \<open>MissingName\<close> and
  \<open>MissingState\<close> and no other. The record id 0 is a present integer, and the code
  reports it missing (the guard of claim C4): for the section body that has only the
  record id 0, an UPDATE with an empty name and an empty state, the validator returns
  three errors.
\<close>

theorem validate_empty_fields_zero_id_three_errors:
  "parseIssueBody (Some ''### Record ID\<newline>0'')
     = Inr \<lparr>p_type = Update, p_name = [], p_state = [], p_options = [],
            p_recordId = Some (Num 0)\<rparr>
   \<and> validateIssueData \<lparr>p_type = Update, p_name = [], p_state = [], p_options = [],
                         p_recordId = Some (Num 0)\<rparr> Update
     = \<lparr>isValid = False, errors = [MissingName, MissingState, MissingRecordId]\<rparr>"
  by code_simp

text \<open>
  Claim C8. A value that is not a base-10 integer should make the normalizer fail with
  \<open>InvalidRecordId\<close>. The code tests \<open>isNaN(parseInt(value, 10))\<close>, and \<open>parseInt\<close> reads
  the digits a value begins with: the section body with the record id \<open>12abc\<close> is
  normalized to an UPDATE of record 12, and \<open>1e3\<close> and \<open>1,000\<close> to an UPDATE of record 1.
  The body with the record id \<open>abc\<close> fails with \<open>InvalidRecordId\<close>.
\<close>

theorem normalize_accepts_trailing_text:
  "\<not> base10_integer ''12abc''
   \<and> parseIssueBody (Some ''### Record ID\<newline>12abc'')
       = Inr \<lparr>p_type = Update, p_name = [], p_state = [], p_options = [],
              p_recordId = Some (Num 12)\<rparr>
   \<and> \<not> base10_integer ''1e3''
   \<and> normalizeParsedData [''recordId'' \<mapsto> ''1e3'']
       = Inr \<lparr>p_type = Update, p_name = [], p_state = [], p_options = [],
              p_recordId = Some (Num 1)\<rparr>
   \<and> \<not> base10_integer ''1,000''
   \<and> normalizeParsedData [''id'' \<mapsto> ''1,000'']
       = Inr \<lparr>p_type = Update, p_name = [], p_state = [], p_options = [],
              p_recordId = Some (Num 1)\<rparr>
   \<and> parseIssueBody (Some ''### Record ID\<newline>abc'') = Inl (InvalidRecordId ''abc'')"
proof -
  have "\<not> base10_integer ''12abc''" "\<not> base10_integer ''1e3''" "\<not> base10_integer ''1,000''"
    by code_simp+
  moreover have "parseIssueBody (Some ''### Record ID\<newline>12abc'')
       = Inr \<lparr>p_type = Update, p_name = [], p_state = [], p_options = [],
              p_recordId = Some (Num 12)\<rparr>"
    by code_simp
  moreover have "normalizeParsedData [''recordId'' \<mapsto> ''1e3'']
       = Inr \<lparr>p_type = Update, p_name = [], p_state = [], p_options = [],
              p_recordId = Some (Num 1)\<rparr>"
    by code_simp
  moreover have "normalizeParsedData [''id'' \<mapsto> ''1,000'']
       = Inr \<lparr>p_type = Update, p_name = [], p_state = [], p_options = [],
              p_recordId = Some (Num 1)\<rparr>"
    by code_simp
  moreover have "parseIssueBody (Some ''### Record ID\<newline>abc'') = Inl (InvalidRecordId ''abc'')"
    by code_simp
  ultimately show ?thesis by simp
qed

section \<open>Facts about the classifier\<close>

lemma startsWith_iff: "startsWith s p \<longleftrightarrow> (\<exists>post. s = p @ post)"
  unfolding startsWith_def
  by (metis append_eq_conv_conj append_take_drop_id)

lemma includes_str_iff: "includes_str s p \<longleftrightarrow> (\<exists>pre post. s = pre @ p @ post)"
proof (induction s)
  case Nil
  show ?case by auto
next
  case (Cons c cs)
  have "(\<exists>pre post. c # cs = pre @ p @ post) \<longleftrightarrow>
        (\<exists>post. c # cs = p @ post) \<or> (\<exists>pre post. cs = pre @ p @ post)"
  proof
    assume "\<exists>pre post. c # cs = pre @ p @ post"
    then obtain pre post where e: "c # cs = pre @ p @ post" by blast
    show "(\<exists>post. c # cs = p @ post) \<or> (\<exists>pre post. cs = pre @ p @ post)"
    proof (cases pre)
      case Nil
      with e show ?thesis by auto
    next
      case (Cons a pre')
      with e have "cs = pre' @ p @ post" by simp
      then show ?thesis by blast
    qed
  next
    assume "(\<exists>post. c # cs = p @ post) \<or> (\<exists>pre post. cs = pre @ p @ post)"
    then show "\<exists>pre post. c # cs = pre @ p @ post"
    proof
      assume "\<exists>post. c # cs = p @ post"
      then obtain post where "c # cs = [] @ p @ post" by auto
      then show ?thesis by blast
    next
      assume "\<exists>pre post. cs = pre @ p @ post"
      then obtain pre post where "c # cs = (c # pre) @ p @ post" by auto
      then show ?thesis by blast
    qed
  qed
  with Cons.IH show ?case by (simp add: startsWith_iff)
qed

lemma map_eq_appendD:
  "map f xs = ys @ zs \<Longrightarrow> \<exists>us vs. xs = us @ vs \<and> map f us = ys \<and> map f vs = zs"
  by (auto simp: map_eq_append_conv)

lemma includes_lower_iff: "includes_str (toLowerCase t) tok \<longleftrightarrow> title_contains t tok"
proof
  assume "includes_str (toLowerCase t) tok"
  then obtain pre' post' where "map to_lower t = pre' @ tok @ post'"
    unfolding includes_str_iff toLowerCase_def by blast
  then obtain pre r where t: "t = pre @ r" and r: "map to_lower r = tok @ post'"
    by (blast dest: map_eq_appendD)
  from r obtain mid post where "r = mid @ post" "map to_lower mid = tok"
    by (blast dest: map_eq_appendD)
  with t show "title_contains t tok"
    unfolding title_contains_def toLowerCase_def by blast
next
  assume "title_contains t tok"
  then obtain pre mid post where "t = pre @ mid @ post" "map to_lower mid = tok"
    unfolding title_contains_def toLowerCase_def by blast
  then have "map to_lower t = map to_lower pre @ tok @ map to_lower post" by simp
  then show "includes_str (toLowerCase t) tok"
    unfolding includes_str_iff toLowerCase_def by blast
qed

lemma startsWith_lower_iff: "startsWith (toLowerCase t) tok \<longleftrightarrow> title_begins t tok"
proof
  assume "startsWith (toLowerCase t) tok"
  then obtain post' where "map to_lower t = tok @ post'"
    unfolding startsWith_iff toLowerCase_def by blast
  then obtain mid post where "t = mid @ post" "map to_lower mid = tok"
    by (blast dest: map_eq_appendD)
  then show "title_begins t tok"
    unfolding title_begins_def toLowerCase_def by blast
next
  assume "title_begins t tok"
  then obtain mid post where "t = mid @ post" "map to_lower mid = tok"
    unfolding title_begins_def toLowerCase_def by blast
  then have "map to_lower t = tok @ map to_lower post" by simp
  then show "startsWith (toLowerCase t) tok"
    unfolding startsWith_iff toLowerCase_def by blast
qed

lemma label_names_iff:
  "nm \<noteq> [] \<Longrightarrow> nm \<in> set (map label_name labels) \<longleftrightarrow> has_label labels nm"
  unfolding has_label_def
proof (induction labels)
  case Nil
  show ?case by simp
next
  case (Cons l ls)
  have "label_name l = nm \<longleftrightarrow>
      (\<exists>s. (l = LabelString s \<or> l = LabelObject (Some s)) \<and> toLowerCase s = nm)"
    using Cons.prems
    by (cases l) (auto simp: label_name_def or_empty_def js_or_def truthy_def
        split: option.splits)
  with Cons show ?case by auto
qed


lemma detect_rules:
  "detectIssueType (Some t) labels =
     (if has_label labels ''update'' \<or> has_label labels ''update-record'' then Update
      else if has_label labels ''create'' \<or> has_label labels ''create-record'' then Create
      else if title_contains t ''[update]'' \<or> title_begins t ''update:'' then Update
      else if title_contains t ''[create]'' \<or> title_begins t ''create:'' then Create
      else Create)"
proof -
  have o: "or_empty (Some t) = t"
    by (simp add: or_empty_def js_or_def truthy_def)
  show ?thesis
    unfolding detectIssueType_def Let_def o includes_lower_iff startsWith_lower_iff
    by (simp add: label_names_iff del: set_map)
qed


section \<open>The claim about the classifier\<close>

text \<open>
  Claim C6. The classifier returns the result of the first rule that matches, without
  regard to case: a label \<open>update\<close> or \<open>update-record\<close> gives UPDATE; a label \<open>create\<close> or
  \<open>create-record\<close> gives CREATE; a title that contains \<open>[update]\<close> or starts with
  \<open>update:\<close> gives UPDATE; a title that contains \<open>[create]\<close> or starts with \<open>create:\<close>
  gives CREATE; anything else gives CREATE. The title \<open>[Update] fix record\<close> without
  labels is an UPDATE, the title \<open>Create: new user\<close> without labels a CREATE.
\<close>

theorem detectIssueType_first_matching_rule:
  "detectIssueType (Some t) labels =
     (if has_label labels ''update'' \<or> has_label labels ''update-record'' then Update
      else if has_label labels ''create'' \<or> has_label labels ''create-record'' then Create
      else if title_contains t ''[update]'' \<or> title_begins t ''update:'' then Update
      else if title_contains t ''[create]'' \<or> title_begins t ''create:'' then Create
      else Create)
   \<and> detectIssueType (Some ''[Update] fix record'') [] = Update
   \<and> detectIssueType (Some ''Create: new user'') [] = Create"
proof -
  have "detectIssueType (Some ''[Update] fix record'') [] = Update"
    by code_simp
  moreover have "detectIssueType (Some ''Create: new user'') [] = Create"
    by code_simp
  ultimately show ?thesis using detect_rules [of t labels] by simp
qed

lemma detect_absent_title: "detectIssueType None labels = detectIssueType (Some []) labels"
  by (simp add: detectIssueType_def or_empty_def js_or_def truthy_def)

section \<open>Facts about the frontmatter strategy\<close>

lemma set_lit: "set (lit p s) = {r. s = p @ r}"
proof -
  have "s = p @ r \<Longrightarrow> drop (length p) s = r" for r by simp
  then show ?thesis
    unfolding lit_def by (auto simp: startsWith_iff)
qed

lemma set_star: "set (star P s) = {(m, r). s = m @ r \<and> list_all P m}"
proof (induction s)
  case Nil
  show ?case by auto
next
  case (Cons c cs)
  have "{(m, r). c # cs = m @ r \<and> list_all P m} =
        (if P c then (\<lambda>(m, r). (c # m, r)) ` {(m, r). cs = m @ r \<and> list_all P m} else {})
        \<union> {([], c # cs)}"
    by (auto simp: Cons_eq_append_conv)
  with Cons.IH show ?case by simp
qed

lemma set_star_lazy: "set (star_lazy P s) = {(m, r). s = m @ r \<and> list_all P m}"
proof (induction s)
  case Nil
  show ?case by auto
next
  case (Cons c cs)
  have "{(m, r). c # cs = m @ r \<and> list_all P m} =
        insert ([], c # cs)
          (if P c then (\<lambda>(m, r). (c # m, r)) ` {(m, r). cs = m @ r \<and> list_all P m} else {})"
    by (auto simp: Cons_eq_append_conv)
  with Cons.IH show ?case by simp
qed

lemma set_at_end: "set (at_end x s) = (if s = [] then {x} else {})"
  unfolding at_end_def by (cases "s = []") simp_all

lemma in_bind: "x \<in> set (List.bind xs f) \<longleftrightarrow> (\<exists>y \<in> set xs. x \<in> set (f y))"
  by (simp add: set_list_bind)

lemma in_frontmatter_regex:
  "(g1, g2) \<in> set (frontmatter_regex s) \<longleftrightarrow>
     (\<exists>ws1 ws2. s = ''---'' @ ws1 @ [CHR 0x0A] @ g1 @ [CHR 0x0A] @ ''---'' @ ws2 @ [CHR 0x0A] @ g2
        \<and> list_all is_space ws1 \<and> list_all is_space ws2)"
  unfolding frontmatter_regex_def
  apply (simp add: in_bind set_lit set_star set_star_lazy set_at_end any_char_def list_all_iff)
  apply (rule iffI)
   apply (elim exE conjE)
   apply hypsubst
   apply (intro exI conjI)
     apply (rule refl)
    apply assumption
   apply assumption
  apply (elim exE conjE)
  apply (intro exI conjI)
         apply assumption
        apply (rule refl)
       apply assumption
      apply (rule refl)
     apply (rule refl)
    apply (rule refl)
   apply (rule refl)
  apply assumption
  apply (rule refl)
  done

lemma frontmatter_regex_nonempty:
  "frontmatter_regex s \<noteq> [] \<longleftrightarrow>
     (\<exists>ws1 g1 ws2 g2.
        s = ''---'' @ ws1 @ [CHR 0x0A] @ g1 @ [CHR 0x0A] @ ''---'' @ ws2 @ [CHR 0x0A] @ g2
        \<and> list_all is_space ws1 \<and> list_all is_space ws2)"
proof -
  have "frontmatter_regex s \<noteq> [] \<longleftrightarrow> (\<exists>g1 g2. (g1, g2) \<in> set (frontmatter_regex s))"
    by (cases "frontmatter_regex s") auto
  also have "\<dots> \<longleftrightarrow> (\<exists>ws1 g1 ws2 g2.
        s = ''---'' @ ws1 @ [CHR 0x0A] @ g1 @ [CHR 0x0A] @ ''---'' @ ws2 @ [CHR 0x0A] @ g2
        \<and> list_all is_space ws1 \<and> list_all is_space ws2)"
    unfolding in_frontmatter_regex by blast
  finally show ?thesis .
qed

lemma split_lines_not_Nil: "split_lines s \<noteq> []"
  by (induction s) (auto split: list.splits)

lemma split_lines_append:
  "split_lines (a @ CHR 0x0A # b) = split_lines a @ split_lines b"
proof (induction a)
  case Nil
  show ?case by simp
next
  case (Cons c a)
  obtain l ls where l: "split_lines a = l # ls"
    using split_lines_not_Nil [of a] by (cases "split_lines a") auto
  with Cons.IH show ?case by simp
qed

lemma split_lines_head:
  "\<exists>ls. split_lines s = takeWhile (\<lambda>c. c \<noteq> CHR 0x0A) s # ls"
proof (induction s)
  case Nil
  show ?case by simp
next
  case (Cons c s)
  then obtain ls where "split_lines s = takeWhile (\<lambda>c. c \<noteq> CHR 0x0A) s # ls" by blast
  then show ?case by simp
qed

lemma delimiter_line_head:
  assumes "list_all is_space ws"
  shows "\<exists>l ls. split_lines (''---'' @ ws) = l # ls \<and> is_delimiter_line l"
proof -
  obtain ls where
    "split_lines (''---'' @ ws) = takeWhile (\<lambda>c. c \<noteq> CHR 0x0A) (''---'' @ ws) # ls"
    using split_lines_head by blast
  moreover have "takeWhile (\<lambda>c. c \<noteq> CHR 0x0A) (''---'' @ ws)
      = ''---'' @ takeWhile (\<lambda>c. c \<noteq> CHR 0x0A) ws"
    by simp
  moreover have "list_all is_space (takeWhile (\<lambda>c. c \<noteq> CHR 0x0A) ws)"
    using assms by (auto simp: list_all_iff dest: set_takeWhileD)
  ultimately show ?thesis
    by (simp add: is_delimiter_line_def startsWith_def)
qed

text \<open>A text the regular expression matches has the frontmatter structure.\<close>

lemma frontmatter_regex_shape:
  assumes "frontmatter_regex s \<noteq> []"
  shows "frontmatter_shape s"
proof -
  from assms obtain ws1 g1 ws2 g2 where
    s: "s = (''---'' @ ws1) @ CHR 0x0A # g1 @ CHR 0x0A # (''---'' @ ws2) @ CHR 0x0A # g2"
    and ws: "list_all is_space ws1" "list_all is_space ws2"
    unfolding frontmatter_regex_nonempty by auto
  from delimiter_line_head [OF ws(1)] obtain d1 ls1 where
    d1: "split_lines (''---'' @ ws1) = d1 # ls1" "is_delimiter_line d1" by blast
  from delimiter_line_head [OF ws(2)] obtain d2 ls2 where
    d2: "split_lines (''---'' @ ws2) = d2 # ls2" "is_delimiter_line d2" by blast
  have "split_lines s = (d1 # ls1) @ split_lines g1 @ (d2 # ls2) @ split_lines g2"
    unfolding s split_lines_append d1(1) [symmetric] d2(1) [symmetric] by simp
  with d1(2) d2(2) show ?thesis
    by (simp add: frontmatter_shape_def)
qed

lemma extractYAMLFrontmatter_cases:
  "frontmatter_regex s \<noteq> [] \<Longrightarrow> \<exists>data. extractYAMLFrontmatter s = Inr data"
  "frontmatter_regex s = [] \<Longrightarrow> extractYAMLFrontmatter s = Inl MalformedFrontmatter"
  unfolding extractYAMLFrontmatter_def first_match_def
  by (cases "frontmatter_regex s"; auto)+

lemma normalize_not_malformed: "normalizeParsedData data \<noteq> Inl MalformedFrontmatter"
proof (cases "\<exists>v. identifier_value data v")
  case True
  then obtain v where "identifier_value data v" by blast
  from normalize_identifier [OF this] show ?thesis
    by (cases "parseInt v") simp_all
next
  case False
  from normalize_no_identifier [OF this] show ?thesis by simp
qed

text \<open>
  Once the trimmed text starts with the delimiter the result is the one of
  \<open>parseYAMLFrontmatter\<close>, which fails with \<open>MalformedFrontmatter\<close> if and only if the
  regular expression does not match; a text without the frontmatter structure is
  among these.
\<close>

lemma frontmatter_strategy_only:
  assumes "body \<noteq> []" and "startsWith (trim body) ''---''"
  shows "parseIssueBody (Some body) = parseYAMLFrontmatter (trim body)"
    and "parseIssueBody (Some body) = Inl MalformedFrontmatter
           \<longleftrightarrow> frontmatter_regex (trim body) = []"
    and "\<not> frontmatter_shape (trim body)
           \<Longrightarrow> parseIssueBody (Some body) = Inl MalformedFrontmatter"
proof -
  show p: "parseIssueBody (Some body) = parseYAMLFrontmatter (trim body)"
    using assms by (simp add: parseIssueBody_def Let_def)
  show m: "parseIssueBody (Some body) = Inl MalformedFrontmatter
           \<longleftrightarrow> frontmatter_regex (trim body) = []"
  proof (cases "frontmatter_regex (trim body) = []")
    case True
    then show ?thesis
      by (simp add: p parseYAMLFrontmatter_def extractYAMLFrontmatter_cases(2))
  next
    case False
    then obtain data where "extractYAMLFrontmatter (trim body) = Inr data"
      using extractYAMLFrontmatter_cases(1) by blast
    with False show ?thesis
      by (simp add: p parseYAMLFrontmatter_def normalize_not_malformed)
  qed
  show "parseIssueBody (Some body) = Inl MalformedFrontmatter"
    if "\<not> frontmatter_shape (trim body)"
    using that m frontmatter_regex_shape by blast
qed

lemma frontmatter_with_remainder:
  "frontmatter_shape (trim body_closed)
   \<and> parseIssueBody (Some body_closed)
       = Inr \<lparr>p_type = Create, p_name = ''Bob'', p_state = [], p_options = [],
              p_recordId = None\<rparr>"
  by code_simp

section \<open>The claim about the frontmatter strategy\<close>

text \<open>
  Claim C7. A text that has the frontmatter structure should be extracted, and a text
  that starts with the delimiter and has not the structure should fail with
  \<open>MalformedFrontmatter\<close>. The regular expression of the code wants a line feed after
  the closing delimiter and one before it that is not the one after the opening
  delimiter, and the text is trimmed before it is matched: a frontmatter that ends
  with its closing delimiter has the structure, with an empty remainder, and fails
  with \<open>MalformedFrontmatter\<close>; so does a frontmatter whose block has no line.
\<close>

theorem frontmatter_only_body_malformed:
  "body_frontmatter_only \<noteq> []
   \<and> startsWith (trim body_frontmatter_only) ''---''
   \<and> frontmatter_shape (trim body_frontmatter_only)
   \<and> parseIssueBody (Some body_frontmatter_only) = Inl MalformedFrontmatter
   \<and> frontmatter_shape (trim body_empty_block)
   \<and> parseIssueBody (Some body_empty_block) = Inl MalformedFrontmatter"
  by code_simp

end
